theory Spec2Isabelle
  imports Complex_Main
begin

section \<open>Data model of the notebook: cells, series and data frames\<close>

text \<open>
  The notebook \<^verbatim>\<open>logistic_regression_tutorial_answers\<close> keeps its data in a pandas
  data frame read from \<^verbatim>\<open>SAheart.data\<close>.  A frame has an ordered list of column labels,
  an index (the row labels, column zero of the file) and one row of cells per index
  entry.  A cell is a string (\<^verbatim>\<open>famhist\<close>), a number, a boolean (the result of a
  comparison) or a missing value.  A column taken out of a frame is a series: the index
  together with one cell per row.
\<close>

datatype cell = Str string | Num rat | Bool bool | NaN

datatype error = KeyError string | ValueError string

record series =
  s_index :: "int list"
  s_values :: "cell list"

record frame =
  columns :: "string list"
  index :: "int list"
  cells :: "cell list list"

text \<open>
  Frames as \<^verbatim>\<open>pd.read_csv\<close> builds them: one row per index entry, one cell per column in
  every row, and no column label twice.
\<close>

definition wf_frame :: "frame \<Rightarrow> bool" where
  "wf_frame df \<longleftrightarrow>
     length (cells df) = length (index df) \<and>
     list_all (\<lambda>r. length r = length (columns df)) (cells df) \<and>
     distinct (columns df)"

text \<open>Python reads \<^verbatim>\<open>True\<close> as the number 1 and \<^verbatim>\<open>False\<close> as 0.\<close>

fun as_number :: "cell \<Rightarrow> rat option" where
  "as_number (Bool b) = Some (if b then 1 else 0)"
| "as_number (Num q) = Some q"
| "as_number (Str s) = None"
| "as_number NaN = None"

subsection \<open>The pandas operations the notebook calls\<close>

text \<open>\<^verbatim>\<open>Index.get_loc\<close>: the position of a label, first occurrence.\<close>

fun get_loc :: "string list \<Rightarrow> string \<Rightarrow> nat option" where
  "get_loc [] c = None"
| "get_loc (x # xs) c = (if x = c then Some 0 else map_option Suc (get_loc xs c))"

text \<open>\<^verbatim>\<open>df[c]\<close>: the column as a series; \<^verbatim>\<open>KeyError\<close> when there is no such label.\<close>

definition getitem :: "frame \<Rightarrow> string \<Rightarrow> error + series" where
  "getitem df c =
     (case get_loc (columns df) c of
        None \<Rightarrow> Inl (KeyError c)
      | Some k \<Rightarrow> Inr \<lparr>s_index = index df, s_values = map (\<lambda>r. r ! k) (cells df)\<rparr>)"

text \<open>\<^verbatim>\<open>series == 'text'\<close>: the elementwise comparison with a string, a boolean series.\<close>

definition eq_scalar :: "series \<Rightarrow> string \<Rightarrow> series" where
  "eq_scalar s x = s\<lparr>s_values := map (\<lambda>v. Bool (v = Str x)) (s_values s)\<rparr>"

text \<open>
  \<^verbatim>\<open>df[c] = series\<close>: an existing column is overwritten in place, a new label is appended
  as the last column.  The notebook only assigns series computed from the same frame, so
  the rows are matched by position.
\<close>

definition setitem :: "frame \<Rightarrow> string \<Rightarrow> series \<Rightarrow> frame" where
  "setitem df c s =
     (case get_loc (columns df) c of
        None \<Rightarrow> df\<lparr>columns := columns df @ [c],
                    cells := map2 (\<lambda>r v. r @ [v]) (cells df) (s_values s)\<rparr>
      | Some k \<Rightarrow> df\<lparr>cells := map2 (\<lambda>r v. r[k := v]) (cells df) (s_values s)\<rparr>)"

text \<open>\<^verbatim>\<open>df.loc[:, mask]\<close>: the columns whose label passes the mask, in their order.\<close>

definition select_row :: "(string \<Rightarrow> bool) \<Rightarrow> string list \<Rightarrow> cell list \<Rightarrow> cell list" where
  "select_row p cs r = map snd (filter (\<lambda>(c, v). p c) (zip cs r))"

definition loc_columns :: "frame \<Rightarrow> (string \<Rightarrow> bool) \<Rightarrow> frame" where
  "loc_columns df p =
     df\<lparr>columns := filter p (columns df),
        cells := map (select_row p (columns df)) (cells df)\<rparr>"

text \<open>\<^verbatim>\<open>df.drop(labels, axis=1)\<close>: \<^verbatim>\<open>KeyError\<close> when a label is not a column.\<close>

definition drop_columns :: "frame \<Rightarrow> string list \<Rightarrow> error + frame" where
  "drop_columns df labels =
     (case filter (\<lambda>c. c \<notin> set (columns df)) labels of
        [] \<Rightarrow> Inr (loc_columns df (\<lambda>c. c \<notin> set labels))
      | c # _ \<Rightarrow> Inl (KeyError c))"

subsection \<open>Managing the categorical variable\<close>

text \<open>
  The notebook cell
  \<^verbatim>\<open>data['famhist_true'] = data['famhist'] == 'Present'\<close>,
  \<^verbatim>\<open>data['famhist_false'] = data['famhist'] == 'Absent'\<close>,
  \<^verbatim>\<open>data = data.drop(['famhist'], axis=1)\<close>.
\<close>

definition famhist_encode :: "frame \<Rightarrow> error + frame" where
  "famhist_encode data =
     (case getitem data ''famhist'' of
        Inl e \<Rightarrow> Inl e
      | Inr fh1 \<Rightarrow>
          let data1 = setitem data ''famhist_true'' (eq_scalar fh1 ''Present'') in
          (case getitem data1 ''famhist'' of
             Inl e \<Rightarrow> Inl e
           | Inr fh2 \<Rightarrow>
               let data2 = setitem data1 ''famhist_false'' (eq_scalar fh2 ''Absent'') in
               drop_columns data2 [''famhist'']))"

text \<open>Three rows in the layout of the heart-disease table, for evaluating the definitions.\<close>

definition sample_data :: frame where
  "sample_data =
     \<lparr>columns = [''sbp'', ''famhist'', ''age'', ''chd''],
      index = [1, 2, 3],
      cells = [[Num 160, Str ''Present'', Num 52, Num 1],
               [Num 144, Str ''Absent'', Num 63, Num 1],
               [Num 118, Str ''Unknown'', Num 46, Num 0]]\<rparr>"

text \<open>A frame with a \<^verbatim>\<open>famhist\<close> value other than the two the notebook names.\<close>

definition unseen_data :: frame where
  "unseen_data =
     \<lparr>columns = [''famhist'', ''chd''],
      index = [7],
      cells = [[Str ''Unknown'', Num 0]]\<rparr>"

subsection \<open>One column per distinct value, as a predicate on the encoder's input and output\<close>

text \<open>
  A column is the indicator of a value when it reads 1 in the rows that hold the value
  and 0 in all others.  A frame \<open>out\<close> encodes column \<open>c\<close> of \<open>data\<close> with one column
  per distinct value when \<open>c\<close> is gone and every distinct value of the column has its
  indicator among the columns of \<open>out\<close>.
\<close>

definition is_indicator :: "cell list \<Rightarrow> cell \<Rightarrow> cell list \<Rightarrow> bool" where
  "is_indicator vs v col \<longleftrightarrow>
     map as_number col = map (\<lambda>x. Some (if x = v then 1 else 0)) vs"

definition has_indicator :: "frame \<Rightarrow> cell list \<Rightarrow> cell \<Rightarrow> bool" where
  "has_indicator out vs v \<longleftrightarrow>
     list_ex (\<lambda>c'. case getitem out c' of
                     Inl e \<Rightarrow> False
                   | Inr col \<Rightarrow> is_indicator vs v (s_values col)) (columns out)"

definition one_column_per_value :: "frame \<Rightarrow> string \<Rightarrow> frame \<Rightarrow> bool" where
  "one_column_per_value data c out \<longleftrightarrow>
     (case getitem data c of
        Inl e \<Rightarrow> False
      | Inr s \<Rightarrow> c \<notin> set (columns out) \<and>
                 list_all (has_indicator out (s_values s)) (remdups (s_values s)))"

subsection \<open>Splitting into train and test\<close>

text \<open>
  The notebook's \<^verbatim>\<open>split(data)\<close> seeds numpy's and Python's global generators with 42,
  calls \<^verbatim>\<open>model_selection.train_test_split(data)\<close> and separates the label column
  \<^verbatim>\<open>chd\<close> from the features in both parts.  scikit-learn, numpy and the \<^verbatim>\<open>random\<close>
  module are not part of the repository: the three library calls are parameters of the
  model.  The ambient state is the pair of global generators; the library's split reads
  and advances it, and may raise.
\<close>

record ('g, 'p) rng_state =
  np_random :: 'g
  py_random :: 'p

record ('g, 'p) library =
  np_random_seed :: "nat \<Rightarrow> 'g"
  random_seed :: "nat \<Rightarrow> 'p"
  train_test_split ::
    "frame \<Rightarrow> ('g, 'p) rng_state \<Rightarrow> (error + frame \<times> frame) \<times> ('g, 'p) rng_state"

definition split ::
  "('g, 'p) library \<Rightarrow> frame \<Rightarrow> ('g, 'p) rng_state \<Rightarrow>
   (error + frame \<times> series \<times> frame \<times> series) \<times> ('g, 'p) rng_state" where
  "split lib data s =
     (let s1 = s\<lparr>np_random := np_random_seed lib 42\<rparr>;
          s2 = s1\<lparr>py_random := random_seed lib 42\<rparr>;
          (r, s3) = train_test_split lib data s2
      in (case r of
            Inl e \<Rightarrow> Inl e
          | Inr (train, test) \<Rightarrow>
              let x_train = loc_columns train (\<lambda>c. c \<noteq> ''chd'') in
              (case getitem train ''chd'' of
                 Inl e \<Rightarrow> Inl e
               | Inr y_train \<Rightarrow>
                   let x_test = loc_columns test (\<lambda>c. c \<noteq> ''chd'') in
                   (case getitem test ''chd'' of
                      Inl e \<Rightarrow> Inl e
                    | Inr y_test \<Rightarrow> Inr (x_train, y_train, x_test, y_test))),
          s3))"

text \<open>
  A stand-in for the library, for evaluating \<open>split\<close>: it holds the first row out as
  the test part and leaves the generators alone.
\<close>

definition first_row_out :: "(nat, nat) library" where
  "first_row_out =
     \<lparr>np_random_seed = (\<lambda>n. n),
      random_seed = (\<lambda>n. n),
      train_test_split = (\<lambda>d st.
        (Inr (d\<lparr>index := tl (index d), cells := tl (cells d)\<rparr>,
              d\<lparr>index := take 1 (index d), cells := take 1 (cells d)\<rparr>), st))\<rparr>"

text \<open>What it returns for \<open>sample_data\<close>: rows 2 and 3 to train on, row 1 to test on.\<close>

definition sample_train :: frame where
  "sample_train =
     \<lparr>columns = [''sbp'', ''famhist'', ''age'', ''chd''],
      index = [2, 3],
      cells = [[Num 144, Str ''Absent'', Num 63, Num 1],
               [Num 118, Str ''Unknown'', Num 46, Num 0]]\<rparr>"

definition sample_test :: frame where
  "sample_test =
     \<lparr>columns = [''sbp'', ''famhist'', ''age'', ''chd''],
      index = [1],
      cells = [[Num 160, Str ''Present'', Num 52, Num 1]]\<rparr>"

section \<open>Facts about the frame operations\<close>

lemma get_loc_None: "get_loc cs c = None \<longleftrightarrow> c \<notin> set cs"
  by (induction cs) auto

lemma get_loc_Some: "get_loc cs c = Some k \<Longrightarrow> k < length cs \<and> cs ! k = c"
  by (induction cs arbitrary: k) (auto split: if_splits)

lemma get_loc_append_new: "c \<notin> set cs \<Longrightarrow> get_loc (cs @ [c]) c = Some (length cs)"
  by (induction cs) auto

lemma get_loc_append_old: "c' \<noteq> c \<Longrightarrow> get_loc (cs @ [c]) c' = get_loc cs c'"
  by (induction cs) auto

lemma nth_map2_snoc:
  "list_all (\<lambda>r. length r = n) rs \<Longrightarrow> length vs = length rs \<Longrightarrow>
   map (\<lambda>r. r ! n) (map2 (\<lambda>r v. r @ [v]) rs vs) = vs"
  by (induction rs vs rule: list_induct2') auto

lemma nth_map2_snoc_old:
  "list_all (\<lambda>r. length r = n) rs \<Longrightarrow> length vs = length rs \<Longrightarrow> j < n \<Longrightarrow>
   map (\<lambda>r. r ! j) (map2 (\<lambda>r v. r @ [v]) rs vs) = map (\<lambda>r. r ! j) rs"
  by (induction rs vs rule: list_induct2') (auto simp: nth_append)

lemma nth_map2_update:
  "list_all (\<lambda>r. length r = n) rs \<Longrightarrow> length vs = length rs \<Longrightarrow> k < n \<Longrightarrow>
   map (\<lambda>r. r ! k) (map2 (\<lambda>r v. r[k := v]) rs vs) = vs"
  by (induction rs vs rule: list_induct2') auto

lemma nth_map2_update_old:
  "length vs = length rs \<Longrightarrow> j \<noteq> k \<Longrightarrow>
   map (\<lambda>r. r ! j) (map2 (\<lambda>r v. r[k := v]) rs vs) = map (\<lambda>r. r ! j) rs"
  by (induction rs vs rule: list_induct2') auto

lemma list_all_map2_snoc:
  "list_all (\<lambda>r. length r = n) rs \<Longrightarrow>
   list_all (\<lambda>r. length r = Suc n) (map2 (\<lambda>r v. r @ [v]) rs vs)"
  by (induction rs vs rule: list_induct2') auto

lemma list_all_map2_update:
  "list_all (\<lambda>r. length r = n) rs \<Longrightarrow>
   list_all (\<lambda>r. length r = n) (map2 (\<lambda>r v. r[k := v]) rs vs)"
  by (induction rs vs rule: list_induct2') auto

lemma wf_setitem:
  "wf_frame df \<Longrightarrow> length (s_values s) = length (cells df) \<Longrightarrow> wf_frame (setitem df c s)"
  by (auto simp: wf_frame_def setitem_def get_loc_None list_all_map2_snoc list_all_map2_update
      split: option.splits)

lemma columns_setitem: "set (columns (setitem df c s)) = insert c (set (columns df))"
  by (auto simp: setitem_def get_loc_None split: option.splits dest: get_loc_Some)

lemma index_setitem: "index (setitem df c s) = index df"
  by (simp add: setitem_def split: option.splits)

lemma length_cells_setitem:
  "length (s_values s) = length (cells df) \<Longrightarrow> length (cells (setitem df c s)) = length (cells df)"
  by (simp add: setitem_def split: option.splits)

lemma getitem_setitem_same:
  assumes "wf_frame df" and len: "length (s_values s) = length (cells df)"
  shows "getitem (setitem df c s) c = Inr \<lparr>s_index = index df, s_values = s_values s\<rparr>"
proof (cases "get_loc (columns df) c")
  case None
  from assms(1) have rows: "list_all (\<lambda>r. length r = length (columns df)) (cells df)"
    by (simp add: wf_frame_def)
  from None have "c \<notin> set (columns df)" by (simp add: get_loc_None)
  then have "get_loc (columns df @ [c]) c = Some (length (columns df))"
    by (rule get_loc_append_new)
  with None nth_map2_snoc [OF rows len] show ?thesis
    by (simp add: getitem_def setitem_def del: map_map)
next
  case (Some k)
  from assms(1) have rows: "list_all (\<lambda>r. length r = length (columns df)) (cells df)"
    by (simp add: wf_frame_def)
  from Some have "k < length (columns df)" by (simp add: get_loc_Some)
  from nth_map2_update [OF rows len this] Some show ?thesis
    by (simp add: getitem_def setitem_def del: map_map)
qed

lemma getitem_setitem_other:
  assumes "wf_frame df" and len: "length (s_values s) = length (cells df)" and "c' \<noteq> c"
  shows "getitem (setitem df c s) c' = getitem df c'"
proof (cases "get_loc (columns df) c")
  case None
  from assms(1) have rows: "list_all (\<lambda>r. length r = length (columns df)) (cells df)"
    by (simp add: wf_frame_def)
  have old: "get_loc (columns df @ [c]) c' = get_loc (columns df) c'"
    using assms(3) by (rule get_loc_append_old)
  show ?thesis
  proof (cases "get_loc (columns df) c'")
    case inner: None
    with None old show ?thesis by (simp add: getitem_def setitem_def)
  next
    case inner: (Some j)
    then have "j < length (columns df)" by (simp add: get_loc_Some)
    from nth_map2_snoc_old [OF rows len this] None old inner show ?thesis
      by (simp add: getitem_def setitem_def del: map_map)
  qed
next
  case (Some k)
  show ?thesis
  proof (cases "get_loc (columns df) c'")
    case inner: None
    with Some show ?thesis by (simp add: getitem_def setitem_def)
  next
    case inner: (Some j)
    have "j \<noteq> k" using get_loc_Some [OF Some] get_loc_Some [OF inner] assms(3) by auto
    from nth_map2_update_old [OF len this] Some inner show ?thesis
      by (simp add: getitem_def setitem_def del: map_map)
  qed
qed

lemma get_loc_Some_mem: "get_loc cs c = Some k \<Longrightarrow> c \<in> set cs"
  using get_loc_None [of cs c] by auto

lemma select_row_nth:
  "length r = length cs \<Longrightarrow> get_loc cs c = Some k \<Longrightarrow> get_loc (filter p cs) c = Some k' \<Longrightarrow>
   select_row p cs r ! k' = r ! k"
proof (induction cs r arbitrary: k k' rule: list_induct2')
  case (4 x xs y ys)
  then show ?case
    by (cases "x = c"; cases "p x") (auto simp: select_row_def dest: get_loc_Some_mem)
qed (auto simp: select_row_def)

lemma length_select_row:
  "length r = length cs \<Longrightarrow> length (select_row p cs r) = length (filter p cs)"
  by (induction cs r rule: list_induct2') (auto simp: select_row_def)

lemma wf_loc_columns: "wf_frame df \<Longrightarrow> wf_frame (loc_columns df p)"
  by (auto simp: wf_frame_def loc_columns_def list_all_iff length_select_row)

lemma getitem_loc_columns:
  assumes "wf_frame df" and "p c"
  shows "getitem (loc_columns df p) c = getitem df c"
proof (cases "get_loc (columns df) c")
  case None
  then have "get_loc (filter p (columns df)) c = None"
    by (simp add: get_loc_None)
  with None show ?thesis by (simp add: getitem_def loc_columns_def)
next
  case (Some k)
  then have "c \<in> set (filter p (columns df))"
    using assms(2) get_loc_None [of "columns df" c] by simp
  then obtain k' where k': "get_loc (filter p (columns df)) c = Some k'"
    using get_loc_None [of "filter p (columns df)" c] by (cases "get_loc (filter p (columns df)) c") auto
  have "map (\<lambda>r. r ! k') (map (select_row p (columns df)) (cells df)) = map (\<lambda>r. r ! k) (cells df)"
    using assms(1) select_row_nth [OF _ Some k']
    by (simp add: wf_frame_def list_all_iff)
  with Some k' show ?thesis by (simp add: getitem_def loc_columns_def del: map_map)
qed

lemma getitem_wf:
  "getitem df c = Inr s \<Longrightarrow> s_index s = index df \<and> length (s_values s) = length (cells df)"
  by (auto simp: getitem_def split: option.splits)

lemma getitem_Inl: "getitem df c = Inl e \<longleftrightarrow> e = KeyError c \<and> c \<notin> set (columns df)"
  by (auto simp: getitem_def get_loc_None split: option.splits dest: get_loc_Some_mem)

lemma famhist_encode_eq:
  assumes wf: "wf_frame data" and fh: "getitem data ''famhist'' = Inr fh"
  shows "famhist_encode data =
         Inr (loc_columns
               (setitem (setitem data ''famhist_true'' (eq_scalar fh ''Present''))
                  ''famhist_false'' (eq_scalar fh ''Absent''))
               (\<lambda>c. c \<notin> set [''famhist'']))"
proof -
  let ?d1 = "setitem data ''famhist_true'' (eq_scalar fh ''Present'')"
  let ?d2 = "setitem ?d1 ''famhist_false'' (eq_scalar fh ''Absent'')"
  have len: "length (s_values (eq_scalar fh ''Present'')) = length (cells data)"
    using getitem_wf [OF fh] by (simp add: eq_scalar_def)
  have fh1: "getitem ?d1 ''famhist'' = Inr fh"
    using getitem_setitem_other [OF wf len, of "''famhist''" "''famhist_true''"] fh by simp
  have "''famhist'' \<in> set (columns data)"
    using fh by (auto simp: getitem_def split: option.splits dest: get_loc_Some_mem)
  then have "''famhist'' \<in> set (columns ?d2)"
    by (simp add: columns_setitem)
  then have "drop_columns ?d2 [''famhist''] = Inr (loc_columns ?d2 (\<lambda>c. c \<notin> set [''famhist'']))"
    by (simp add: drop_columns_def)
  with fh fh1 show ?thesis
    by (simp add: famhist_encode_def Let_def)
qed

lemma famhist_encode_columns:
  assumes wf: "wf_frame data" and fh: "getitem data ''famhist'' = Inr fh"
    and out: "famhist_encode data = Inr out"
  shows "wf_frame out"
    and "index out = index data"
    and "getitem out ''famhist_true'' = Inr (eq_scalar fh ''Present'')"
    and "getitem out ''famhist_false'' = Inr (eq_scalar fh ''Absent'')"
    and "set (columns out) = set (columns data) - {''famhist''} \<union> {''famhist_true'', ''famhist_false''}"
proof -
  let ?d1 = "setitem data ''famhist_true'' (eq_scalar fh ''Present'')"
  let ?d2 = "setitem ?d1 ''famhist_false'' (eq_scalar fh ''Absent'')"
  have len1: "length (s_values (eq_scalar fh ''Present'')) = length (cells data)"
    using getitem_wf [OF fh] by (simp add: eq_scalar_def)
  have wf1: "wf_frame ?d1" using wf len1 by (rule wf_setitem)
  have len2: "length (s_values (eq_scalar fh ''Absent'')) = length (cells ?d1)"
    using getitem_wf [OF fh] len1 by (simp add: eq_scalar_def length_cells_setitem)
  have wf2: "wf_frame ?d2" using wf1 len2 by (rule wf_setitem)
  have eq: "out = loc_columns ?d2 (\<lambda>c. c \<notin> set [''famhist''])"
    using famhist_encode_eq [OF wf fh] out by simp
  show "wf_frame out" using wf2 eq by (simp add: wf_loc_columns)
  show "index out = index data" by (simp add: eq loc_columns_def index_setitem)
  have idx: "s_index fh = index data" using getitem_wf [OF fh] by simp
  have "getitem out ''famhist_true'' = getitem ?d2 ''famhist_true''"
    unfolding eq using wf2 by (rule getitem_loc_columns) simp
  also have "\<dots> = getitem ?d1 ''famhist_true''"
    using wf1 len2 by (rule getitem_setitem_other) simp
  also have "\<dots> = Inr (eq_scalar fh ''Present'')"
    using getitem_setitem_same [OF wf len1, of "''famhist_true''"] idx by (simp add: eq_scalar_def)
  finally show "getitem out ''famhist_true'' = Inr (eq_scalar fh ''Present'')" .
  have "getitem out ''famhist_false'' = getitem ?d2 ''famhist_false''"
    unfolding eq using wf2 by (rule getitem_loc_columns) simp
  also have "\<dots> = Inr (eq_scalar fh ''Absent'')"
    using getitem_setitem_same [OF wf1 len2, of "''famhist_false''"] idx
    by (simp add: eq_scalar_def index_setitem)
  finally show "getitem out ''famhist_false'' = Inr (eq_scalar fh ''Absent'')" .
  show "set (columns out) = set (columns data) - {''famhist''} \<union> {''famhist_true'', ''famhist_false''}"
    by (auto simp: eq loc_columns_def columns_setitem)
qed

lemma eq_scalar_values: "s_values (eq_scalar s x) = map (\<lambda>v. Bool (v = Str x)) (s_values s)"
  by (simp add: eq_scalar_def)

lemma famhist_encode_ok:
  assumes wf: "wf_frame data" and fh: "getitem data ''famhist'' = Inr fh"
  shows "\<exists>out. famhist_encode data = Inr out"
  using famhist_encode_eq [OF wf fh] by simp

section \<open>Facts about \<open>split\<close>\<close>

lemma reseed_overwrites:
  fixes s :: "('g, 'p) rng_state"
  shows "s\<lparr>np_random := a, py_random := b\<rparr> = \<lparr>np_random = a, py_random = b\<rparr>"
  by (cases s) simp

text \<open>
  \<open>split\<close> overwrites both generators before it calls the library, so the state it is
  started from has no part in what it returns.
\<close>

lemma split_reseeds: "split lib data s = split lib data s'"
  by (simp add: split_def reseed_overwrites)

lemma split_result:
  assumes lib: "train_test_split lib data
                  \<lparr>np_random = np_random_seed lib 42, py_random = random_seed lib 42\<rparr> =
                (Inr (train, test), s')"
    and ytr: "getitem train ''chd'' = Inr y_train"
    and yte: "getitem test ''chd'' = Inr y_test"
  shows "split lib data s =
         (Inr (loc_columns train (\<lambda>c. c \<noteq> ''chd''), y_train,
               loc_columns test (\<lambda>c. c \<noteq> ''chd''), y_test), s')"
  using lib ytr yte by (simp add: split_def reseed_overwrites)

lemma getitem_ok: "c \<in> set (columns df) \<Longrightarrow> \<exists>s. getitem df c = Inr s"
  by (cases "get_loc (columns df) c") (auto simp: getitem_def get_loc_None)

lemma first_row_out_sample:
  "train_test_split first_row_out sample_data
     \<lparr>np_random = np_random_seed first_row_out 42, py_random = random_seed first_row_out 42\<rparr> =
   (Inr (sample_train, sample_test), \<lparr>np_random = 42, py_random = 42\<rparr>)"
  by (simp add: first_row_out_def sample_data_def sample_train_def sample_test_def)

lemma sample_frames_wf: "wf_frame sample_data" "wf_frame sample_train" "wf_frame sample_test"
  by (simp_all add: wf_frame_def sample_data_def sample_train_def sample_test_def)

lemma sample_frames_columns:
  "columns sample_train = columns sample_data" "columns sample_test = columns sample_data"
  "''chd'' \<in> set (columns sample_data)"
  by (simp_all add: sample_data_def sample_train_def sample_test_def)

section \<open>The encoding of \<^verbatim>\<open>famhist\<close>\<close>

text \<open>
  Claim C10.  After the encoding step, in every row whose original \<^verbatim>\<open>famhist\<close> value is
  \<^verbatim>\<open>'Present'\<close> or \<^verbatim>\<open>'Absent'\<close>, one of the two generated columns \<^verbatim>\<open>famhist_true\<close> and
  \<^verbatim>\<open>famhist_false\<close> holds 1 and the other holds 0; in a row with any other value both
  hold 0.  The step succeeds on every well-formed frame that has the column, and the
  generated columns have one cell per row.
\<close>

theorem famhist_columns_complementary:
  assumes wf: "wf_frame data" and fh: "getitem data ''famhist'' = Inr fh"
  shows "\<exists>out t f. famhist_encode data = Inr out \<and>
           getitem out ''famhist_true'' = Inr t \<and> getitem out ''famhist_false'' = Inr f \<and>
           length (s_values t) = length (s_values fh) \<and>
           length (s_values f) = length (s_values fh) \<and>
           (\<forall>i < length (s_values fh).
              (s_values fh ! i = Str ''Present'' \<or> s_values fh ! i = Str ''Absent'' \<longrightarrow>
                 (as_number (s_values t ! i) = Some 1 \<and> as_number (s_values f ! i) = Some 0) \<or>
                 (as_number (s_values t ! i) = Some 0 \<and> as_number (s_values f ! i) = Some 1)) \<and>
              (s_values fh ! i \<noteq> Str ''Present'' \<and> s_values fh ! i \<noteq> Str ''Absent'' \<longrightarrow>
                 as_number (s_values t ! i) = Some 0 \<and> as_number (s_values f ! i) = Some 0))"
proof -
  obtain out where out: "famhist_encode data = Inr out"
    using famhist_encode_ok [OF wf fh] by blast
  note cols = famhist_encode_columns [OF wf fh out]
  show ?thesis
    using out cols(3) cols(4) by (auto simp: eq_scalar_values)
qed

text \<open>The three rows of \<open>sample_data\<close>: row 0 is \<^verbatim>\<open>'Present'\<close>, row 2 is \<^verbatim>\<open>'Unknown'\<close>.\<close>

theorem famhist_columns_complementary_witness:
  "wf_frame sample_data \<and>
   getitem sample_data ''famhist'' =
     Inr \<lparr>s_index = [1, 2, 3], s_values = [Str ''Present'', Str ''Absent'', Str ''Unknown'']\<rparr> \<and>
   (\<exists>out t f. famhist_encode sample_data = Inr out \<and>
      getitem out ''famhist_true'' = Inr t \<and> getitem out ''famhist_false'' = Inr f \<and>
      ((as_number (s_values t ! 0) = Some 1 \<and> as_number (s_values f ! 0) = Some 0) \<or>
       (as_number (s_values t ! 0) = Some 0 \<and> as_number (s_values f ! 0) = Some 1)) \<and>
      as_number (s_values t ! 2) = Some 0 \<and> as_number (s_values f ! 2) = Some 0)"
proof -
  let ?fh = "\<lparr>s_index = [1, 2, 3], s_values = [Str ''Present'', Str ''Absent'', Str ''Unknown'']\<rparr>"
  have h1: "wf_frame sample_data"
    by (simp add: wf_frame_def sample_data_def)
  have h2: "getitem sample_data ''famhist'' = Inr ?fh"
    by (simp add: getitem_def sample_data_def)
  from famhist_columns_complementary [OF h1 h2] obtain out t f where
    out: "famhist_encode sample_data = Inr out"
      "getitem out ''famhist_true'' = Inr t" "getitem out ''famhist_false'' = Inr f"
    and rows: "\<forall>i < length (s_values ?fh).
              (s_values ?fh ! i = Str ''Present'' \<or> s_values ?fh ! i = Str ''Absent'' \<longrightarrow>
                 (as_number (s_values t ! i) = Some 1 \<and> as_number (s_values f ! i) = Some 0) \<or>
                 (as_number (s_values t ! i) = Some 0 \<and> as_number (s_values f ! i) = Some 1)) \<and>
              (s_values ?fh ! i \<noteq> Str ''Present'' \<and> s_values ?fh ! i \<noteq> Str ''Absent'' \<longrightarrow>
                 as_number (s_values t ! i) = Some 0 \<and> as_number (s_values f ! i) = Some 0)"
    by blast
  from rows [rule_format, of 0] have r0:
    "(as_number (s_values t ! 0) = Some 1 \<and> as_number (s_values f ! 0) = Some 0) \<or>
     (as_number (s_values t ! 0) = Some 0 \<and> as_number (s_values f ! 0) = Some 1)"
    by simp
  from rows [rule_format, of 2] have r2:
    "as_number (s_values t ! 2) = Some 0 \<and> as_number (s_values f ! 2) = Some 0"
    by simp
  from h1 h2 out r0 r2 show ?thesis by blast
qed

text \<open>
  Claim C4, as the specification states it: the encoding produces one column per
  distinct value of the categorical column.  The notebook compares with the two values it
  names and nothing else, so a third value gets no column of its own: in \<open>sample_data\<close>
  no column of the result is the indicator of \<^verbatim>\<open>'Unknown'\<close>.
\<close>

theorem one_column_per_value_counterexample:
  "famhist_encode sample_data =
     Inr \<lparr>columns = [''sbp'', ''age'', ''chd'', ''famhist_true'', ''famhist_false''],
           index = [1, 2, 3],
           cells = [[Num 160, Num 52, Num 1, Bool True, Bool False],
                    [Num 144, Num 63, Num 1, Bool False, Bool True],
                    [Num 118, Num 46, Num 0, Bool False, Bool False]]\<rparr> \<and>
   \<not> one_column_per_value sample_data ''famhist''
     \<lparr>columns = [''sbp'', ''age'', ''chd'', ''famhist_true'', ''famhist_false''],
      index = [1, 2, 3],
      cells = [[Num 160, Num 52, Num 1, Bool True, Bool False],
               [Num 144, Num 63, Num 1, Bool False, Bool True],
               [Num 118, Num 46, Num 0, Bool False, Bool False]]\<rparr>"
  by (simp add: famhist_encode_def getitem_def setitem_def eq_scalar_def drop_columns_def
      loc_columns_def select_row_def sample_data_def one_column_per_value_def
      has_indicator_def is_indicator_def)

text \<open>
  Claim C4, amended.  The encoding of \<^verbatim>\<open>famhist\<close> produces the two columns
  \<^verbatim>\<open>famhist_true\<close> and \<^verbatim>\<open>famhist_false\<close>, for the fixed values \<^verbatim>\<open>'Present'\<close> and
  \<^verbatim>\<open>'Absent'\<close> and whatever values the column holds: each is true (1) in the rows whose
  original value is its value and false (0) in all others, no other column is added, and
  \<^verbatim>\<open>famhist\<close> is dropped.  When the column holds no value but these two, every distinct
  value of the column has its indicator column in the result.
\<close>

theorem famhist_two_fixed_columns:
  assumes wf: "wf_frame data" and fh: "getitem data ''famhist'' = Inr fh"
  shows "\<exists>out. famhist_encode data = Inr out \<and>
           getitem out ''famhist_true'' =
             Inr (fh\<lparr>s_values := map (\<lambda>v. Bool (v = Str ''Present'')) (s_values fh)\<rparr>) \<and>
           getitem out ''famhist_false'' =
             Inr (fh\<lparr>s_values := map (\<lambda>v. Bool (v = Str ''Absent'')) (s_values fh)\<rparr>) \<and>
           has_indicator out (s_values fh) (Str ''Present'') \<and>
           has_indicator out (s_values fh) (Str ''Absent'') \<and>
           ''famhist'' \<notin> set (columns out) \<and>
           set (columns out) =
             set (columns data) - {''famhist''} \<union> {''famhist_true'', ''famhist_false''} \<and>
           (set (s_values fh) \<subseteq> {Str ''Present'', Str ''Absent''} \<longrightarrow>
              one_column_per_value data ''famhist'' out)"
proof -
  obtain out where out: "famhist_encode data = Inr out"
    using famhist_encode_ok [OF wf fh] by blast
  note cols = famhist_encode_columns [OF wf fh out]
  have t: "getitem out ''famhist_true'' =
             Inr (fh\<lparr>s_values := map (\<lambda>v. Bool (v = Str ''Present'')) (s_values fh)\<rparr>)"
    using cols(3) by (simp add: eq_scalar_def)
  have f: "getitem out ''famhist_false'' =
             Inr (fh\<lparr>s_values := map (\<lambda>v. Bool (v = Str ''Absent'')) (s_values fh)\<rparr>)"
    using cols(4) by (simp add: eq_scalar_def)
  have gone: "''famhist'' \<notin> set (columns out)"
    using cols(5) by simp
  have ip: "has_indicator out (s_values fh) (Str ''Present'')"
    unfolding has_indicator_def list_ex_iff
    by (rule bexI [of _ "''famhist_true''"]) (simp_all add: t cols(5) is_indicator_def)
  have ia: "has_indicator out (s_values fh) (Str ''Absent'')"
    unfolding has_indicator_def list_ex_iff
    by (rule bexI [of _ "''famhist_false''"]) (simp_all add: f cols(5) is_indicator_def)
  have "one_column_per_value data ''famhist'' out"
    if "set (s_values fh) \<subseteq> {Str ''Present'', Str ''Absent''}"
    using that fh gone ip ia by (auto simp: one_column_per_value_def list_all_iff)
  with out t f ip ia gone cols(5) show ?thesis by blast
qed

text \<open>On \<open>sample_data\<close> the two generated columns and the remaining labels are as follows.\<close>

theorem famhist_two_fixed_columns_witness:
  "wf_frame sample_data \<and>
   getitem sample_data ''famhist'' =
     Inr \<lparr>s_index = [1, 2, 3], s_values = [Str ''Present'', Str ''Absent'', Str ''Unknown'']\<rparr> \<and>
   (\<exists>out. famhist_encode sample_data = Inr out \<and>
      getitem out ''famhist_true'' =
        Inr \<lparr>s_index = [1, 2, 3], s_values = [Bool True, Bool False, Bool False]\<rparr> \<and>
      getitem out ''famhist_false'' =
        Inr \<lparr>s_index = [1, 2, 3], s_values = [Bool False, Bool True, Bool False]\<rparr> \<and>
      ''famhist'' \<notin> set (columns out) \<and>
      set (columns out) = {''sbp'', ''age'', ''chd'', ''famhist_true'', ''famhist_false''})"
proof -
  let ?fh = "\<lparr>s_index = [1, 2, 3], s_values = [Str ''Present'', Str ''Absent'', Str ''Unknown'']\<rparr>"
  have h1: "wf_frame sample_data"
    by (simp add: wf_frame_def sample_data_def)
  have h2: "getitem sample_data ''famhist'' = Inr ?fh"
    by (simp add: getitem_def sample_data_def)
  from famhist_two_fixed_columns [OF h1 h2] obtain out where
    out: "famhist_encode sample_data = Inr out"
    and t: "getitem out ''famhist_true'' =
             Inr (?fh\<lparr>s_values := map (\<lambda>v. Bool (v = Str ''Present'')) (s_values ?fh)\<rparr>)"
    and f: "getitem out ''famhist_false'' =
             Inr (?fh\<lparr>s_values := map (\<lambda>v. Bool (v = Str ''Absent'')) (s_values ?fh)\<rparr>)"
    and gone: "''famhist'' \<notin> set (columns out)"
    and cols: "set (columns out) =
             set (columns sample_data) - {''famhist''} \<union> {''famhist_true'', ''famhist_false''}"
    by blast
  from t have t': "getitem out ''famhist_true'' =
        Inr \<lparr>s_index = [1, 2, 3], s_values = [Bool True, Bool False, Bool False]\<rparr>"
    by simp
  from f have f': "getitem out ''famhist_false'' =
        Inr \<lparr>s_index = [1, 2, 3], s_values = [Bool False, Bool True, Bool False]\<rparr>"
    by simp
  from cols have cols': "set (columns out) = {''sbp'', ''age'', ''chd'', ''famhist_true'', ''famhist_false''}"
    by (auto simp: sample_data_def)
  from h1 h2 out t' f' gone cols' show ?thesis by blast
qed

text \<open>
  Claim C5, as the specification states it: a value outside the fixed set makes the
  encoding fail with an error naming the value.  The notebook's step has no such error:
  on a frame whose only row holds \<^verbatim>\<open>'Unknown'\<close> it returns the encoded row.
\<close>

theorem unseen_value_counterexample:
  "famhist_encode unseen_data =
     Inr \<lparr>columns = [''chd'', ''famhist_true'', ''famhist_false''],
           index = [7],
           cells = [[Num 0, Bool False, Bool False]]\<rparr>"
  by (simp add: famhist_encode_def getitem_def setitem_def eq_scalar_def drop_columns_def
      loc_columns_def select_row_def unseen_data_def)

text \<open>
  Claim C5, amended.  A \<^verbatim>\<open>famhist\<close> value that is neither \<^verbatim>\<open>'Present'\<close> nor \<^verbatim>\<open>'Absent'\<close>
  does not make the encoding fail: the step returns the encoded frame, and both generated
  columns are false (0) in that row.  The only failure of the step is the \<^verbatim>\<open>KeyError\<close> of
  a frame that has no \<^verbatim>\<open>famhist\<close> column.
\<close>

theorem famhist_encode_fails_only_without_column:
  assumes wf: "wf_frame data"
  shows "(\<forall>e. famhist_encode data = Inl e \<longleftrightarrow>
              e = KeyError ''famhist'' \<and> ''famhist'' \<notin> set (columns data)) \<and>
         (\<forall>fh. getitem data ''famhist'' = Inr fh \<longrightarrow>
            (\<exists>out t f. famhist_encode data = Inr out \<and>
               getitem out ''famhist_true'' = Inr t \<and> getitem out ''famhist_false'' = Inr f \<and>
               (\<forall>i < length (s_values fh).
                  s_values fh ! i \<noteq> Str ''Present'' \<and> s_values fh ! i \<noteq> Str ''Absent'' \<longrightarrow>
                  s_values t ! i = Bool False \<and> s_values f ! i = Bool False)))"
proof (intro conjI allI impI)
  fix e
  show "famhist_encode data = Inl e \<longleftrightarrow>
          e = KeyError ''famhist'' \<and> ''famhist'' \<notin> set (columns data)"
  proof (cases "getitem data ''famhist''")
    case (Inl e')
    then show ?thesis
      using getitem_Inl [of data "''famhist''" e'] by (auto simp: famhist_encode_def)
  next
    case (Inr fh)
    then have "''famhist'' \<in> set (columns data)"
      by (auto simp: getitem_def split: option.splits dest: get_loc_Some_mem)
    with famhist_encode_eq [OF wf Inr] show ?thesis by simp
  qed
next
  fix fh
  assume fh: "getitem data ''famhist'' = Inr fh"
  obtain out where out: "famhist_encode data = Inr out"
    using famhist_encode_ok [OF wf fh] by blast
  note cols = famhist_encode_columns [OF wf fh out]
  show "\<exists>out t f. famhist_encode data = Inr out \<and>
               getitem out ''famhist_true'' = Inr t \<and> getitem out ''famhist_false'' = Inr f \<and>
               (\<forall>i < length (s_values fh).
                  s_values fh ! i \<noteq> Str ''Present'' \<and> s_values fh ! i \<noteq> Str ''Absent'' \<longrightarrow>
                  s_values t ! i = Bool False \<and> s_values f ! i = Bool False)"
    using out cols(3) cols(4) by (auto simp: eq_scalar_values)
qed

text \<open>On \<open>unseen_data\<close> the step does not fail, and row 0 is encoded with both columns false.\<close>

theorem famhist_encode_fails_only_without_column_witness:
  "wf_frame unseen_data \<and>
   famhist_encode unseen_data \<noteq> Inl (KeyError ''famhist'') \<and>
   (\<exists>out t f. famhist_encode unseen_data = Inr out \<and>
       getitem out ''famhist_true'' = Inr t \<and> getitem out ''famhist_false'' = Inr f \<and>
       s_values t ! 0 = Bool False \<and> s_values f ! 0 = Bool False)"
proof -
  let ?fh = "\<lparr>s_index = [7], s_values = [Str ''Unknown'']\<rparr>"
  have h1: "wf_frame unseen_data"
    by (simp add: wf_frame_def unseen_data_def)
  have h2: "getitem unseen_data ''famhist'' = Inr ?fh"
    by (simp add: getitem_def unseen_data_def)
  note enc = famhist_encode_fails_only_without_column [OF h1]
  from enc [THEN conjunct1, rule_format, of "KeyError ''famhist''"]
  have no: "famhist_encode unseen_data \<noteq> Inl (KeyError ''famhist'')"
    by (simp add: unseen_data_def)
  from enc [THEN conjunct2, rule_format, OF h2] obtain out t f where
    out: "famhist_encode unseen_data = Inr out"
      "getitem out ''famhist_true'' = Inr t" "getitem out ''famhist_false'' = Inr f"
    and rows: "\<forall>i < length (s_values ?fh).
                  s_values ?fh ! i \<noteq> Str ''Present'' \<and> s_values ?fh ! i \<noteq> Str ''Absent'' \<longrightarrow>
                  s_values t ! i = Bool False \<and> s_values f ! i = Bool False"
    by blast
  from rows [rule_format, of 0] have "s_values t ! 0 = Bool False \<and> s_values f ! 0 = Bool False"
    by simp
  with h1 no out show ?thesis by blast
qed

section \<open>The train and test split\<close>

text \<open>
  Claim C8.  The splitter returns four structures, train features, train labels, test
  features and test labels.  The feature frames have the columns of the input without the
  label column \<^verbatim>\<open>chd\<close>, in the input's order and the same in train and test; every feature
  column holds what it held before the label was taken out, and every row has one cell per
  feature column.  The library's split is a parameter: the theorem is about any call of it
  that returns two well-formed frames with the columns of the input.
\<close>

theorem split_feature_columns:
  assumes lib: "train_test_split lib data
                  \<lparr>np_random = np_random_seed lib 42, py_random = random_seed lib 42\<rparr> =
                (Inr (train, test), s')"
    and ctr: "columns train = columns data" and cte: "columns test = columns data"
    and wtr: "wf_frame train" and wte: "wf_frame test"
    and chd: "''chd'' \<in> set (columns data)"
  shows "\<exists>x_train y_train x_test y_test.
           split lib data s = (Inr (x_train, y_train, x_test, y_test), s') \<and>
           columns x_train = filter (\<lambda>c. c \<noteq> ''chd'') (columns data) \<and>
           columns x_test = columns x_train \<and>
           ''chd'' \<notin> set (columns x_train) \<and> ''chd'' \<notin> set (columns x_test) \<and>
           list_all (\<lambda>r. length r = length (columns x_train)) (cells x_train) \<and>
           list_all (\<lambda>r. length r = length (columns x_test)) (cells x_test) \<and>
           (\<forall>c. c \<noteq> ''chd'' \<longrightarrow>
              getitem x_train c = getitem train c \<and> getitem x_test c = getitem test c) \<and>
           getitem train ''chd'' = Inr y_train \<and> getitem test ''chd'' = Inr y_test"
proof -
  let ?p = "\<lambda>c. c \<noteq> ''chd''"
  obtain y_train where ytr: "getitem train ''chd'' = Inr y_train"
    using getitem_ok [of "''chd''" train] chd ctr by auto
  obtain y_test where yte: "getitem test ''chd'' = Inr y_test"
    using getitem_ok [of "''chd''" test] chd cte by auto
  have res: "split lib data s = (Inr (loc_columns train ?p, y_train, loc_columns test ?p, y_test), s')"
    using lib ytr yte by (rule split_result)
  have c1: "columns (loc_columns train ?p) = filter ?p (columns data)"
    and c2: "columns (loc_columns test ?p) = columns (loc_columns train ?p)"
    by (simp_all add: loc_columns_def ctr cte)
  have n1: "''chd'' \<notin> set (columns (loc_columns train ?p))"
    and n2: "''chd'' \<notin> set (columns (loc_columns test ?p))"
    by (simp_all add: loc_columns_def)
  have w1: "list_all (\<lambda>r. length r = length (columns (loc_columns train ?p))) (cells (loc_columns train ?p))"
    using wf_loc_columns [OF wtr, of ?p] by (simp add: wf_frame_def)
  have w2: "list_all (\<lambda>r. length r = length (columns (loc_columns test ?p))) (cells (loc_columns test ?p))"
    using wf_loc_columns [OF wte, of ?p] by (simp add: wf_frame_def)
  have g: "\<forall>c. c \<noteq> ''chd'' \<longrightarrow>
      getitem (loc_columns train ?p) c = getitem train c \<and>
      getitem (loc_columns test ?p) c = getitem test c"
    using getitem_loc_columns [OF wtr, of ?p] getitem_loc_columns [OF wte, of ?p] by simp
  from res c1 c2 n1 n2 w1 w2 g ytr yte show ?thesis by blast
qed

text \<open>With the stand-in library on \<open>sample_data\<close>, from the ambient state \<open>(0, 0)\<close>.\<close>

theorem split_feature_columns_witness:
  "train_test_split first_row_out sample_data
     \<lparr>np_random = np_random_seed first_row_out 42, py_random = random_seed first_row_out 42\<rparr> =
     (Inr (sample_train, sample_test), \<lparr>np_random = 42, py_random = 42\<rparr>) \<and>
   columns sample_train = columns sample_data \<and> columns sample_test = columns sample_data \<and>
   wf_frame sample_train \<and> wf_frame sample_test \<and> ''chd'' \<in> set (columns sample_data) \<and>
   (\<exists>x_train y_train x_test y_test.
      split first_row_out sample_data \<lparr>np_random = 0, py_random = 0\<rparr> =
        (Inr (x_train, y_train, x_test, y_test), \<lparr>np_random = 42, py_random = 42\<rparr>) \<and>
      columns x_train = [''sbp'', ''famhist'', ''age''] \<and>
      columns x_test = [''sbp'', ''famhist'', ''age''] \<and>
      getitem x_train ''age'' = getitem sample_train ''age'')"
proof -
  from split_feature_columns [OF first_row_out_sample sample_frames_columns(1,2)
      sample_frames_wf(2,3) sample_frames_columns(3), of "\<lparr>np_random = 0, py_random = 0\<rparr>"]
  obtain x_train y_train x_test y_test where
    res: "split first_row_out sample_data \<lparr>np_random = 0, py_random = 0\<rparr> =
        (Inr (x_train, y_train, x_test, y_test), \<lparr>np_random = 42, py_random = 42\<rparr>)"
    and c1: "columns x_train = filter (\<lambda>c. c \<noteq> ''chd'') (columns sample_data)"
    and c2: "columns x_test = columns x_train"
    and g: "\<forall>c. c \<noteq> ''chd'' \<longrightarrow>
              getitem x_train c = getitem sample_train c \<and> getitem x_test c = getitem sample_test c"
    by blast
  from c1 have c1': "columns x_train = [''sbp'', ''famhist'', ''age'']"
    by (simp add: sample_data_def)
  from g have g': "getitem x_train ''age'' = getitem sample_train ''age''"
    by simp
  from first_row_out_sample sample_frames_columns sample_frames_wf res c1' c2 g'
  show ?thesis by simp
qed

end
